theory Spec2Isabelle
  imports Complex_Main "HOL-Library.Sublist"
begin

section \<open>Cells, text and the pandas operations used by \<open>app.py\<close>\<close>

text \<open>
  \<open>app.py\<close> cleans spreadsheets with pandas. A cell of a loaded sheet is missing, a text or
  a number. Numbers are exact here: a Python \<open>int\<close> is an \<open>int\<close>, a float is a rational
  (non-finite floats, rounding and 64-bit overflow are outside this model). Text is a list of
  8-bit characters; case folding, digits and white space are the ASCII ones.
\<close>

datatype cell = NaN | Text string | IntV int | FloatV rat

datatype py_error = KeyError | IndexError | TypeError | ValueError | AttributeError

text \<open>
  Two conversions are pandas' own and are taken as parameters: which texts
  \<open>pd.to_numeric\<close> parses (and to what), and how \<open>str\<close> prints a float.
\<close>

record pandas_env =
  to_num :: "string \<Rightarrow> rat option"
  float_str :: "rat \<Rightarrow> string"

subsection \<open>Text\<close>

definition is_space :: "char \<Rightarrow> bool" where
  "is_space c = (c \<in> set [CHR '' '', CHR 0x09, CHR 0x0A, CHR 0x0B, CHR 0x0C, CHR 0x0D,
     CHR 0x1C, CHR 0x1D, CHR 0x1E, CHR 0x1F])"

definition strip :: "string \<Rightarrow> string" where
  "strip s = rev (dropWhile is_space (rev (dropWhile is_space s)))"

definition upper_char :: "char \<Rightarrow> char" where
  "upper_char c =
     (case map_of (zip ''abcdefghijklmnopqrstuvwxyz'' ''ABCDEFGHIJKLMNOPQRSTUVWXYZ'') c of
        Some u \<Rightarrow> u | None \<Rightarrow> c)"

definition upper :: "string \<Rightarrow> string" where
  "upper s = map upper_char s"

definition is_digit :: "char \<Rightarrow> bool" where
  "is_digit c = (c \<in> set ''0123456789'')"

definition digit_val :: "char \<Rightarrow> nat" where
  "digit_val c = (case map_of (zip ''0123456789'' [0, 1, 2, 3, 4, 5, 6, 7, 8, 9]) c of
     Some d \<Rightarrow> d | None \<Rightarrow> 0)"

definition nat_of_digits :: "string \<Rightarrow> nat" where
  "nat_of_digits ds = foldl (\<lambda>n c. 10 * n + digit_val c) 0 ds"

definition digit_char :: "nat \<Rightarrow> char" where
  "digit_char d = ''0123456789'' ! (d mod 10)"

function show_nat :: "nat \<Rightarrow> string" where
  "show_nat n = (if n < 10 then [digit_char n] else show_nat (n div 10) @ [digit_char n])"
  by pat_completeness auto
termination
  by (relation "measure id") auto

definition show_int :: "int \<Rightarrow> string" where
  "show_int i = (if i < 0 then CHR ''-'' # show_nat (nat (- i)) else show_nat (nat i))"

text \<open>An instance for worked examples: a text of digits parses to its number, a whole
  float prints as Python prints it.\<close>

definition plain_env :: pandas_env where
  "plain_env = \<lparr>to_num = (\<lambda>s. if s \<noteq> [] \<and> list_all is_digit s
                               then Some (of_nat (nat_of_digits s)) else None),
                 float_str = (\<lambda>r. show_int \<lfloor>r\<rfloor> @ ''.0'')\<rparr>"

text \<open>\<open>Series.str.contains(pat, case=False)\<close> for a pattern that is an alternation of
  literal words: some word occurs in the text, letters compared without case.\<close>

definition str_contains_ci :: "string list \<Rightarrow> string \<Rightarrow> bool" where
  "str_contains_ci words s = list_ex (\<lambda>w. sublist (upper w) (upper s)) words"



subsection \<open>Cells\<close>

definition notna :: "cell \<Rightarrow> bool" where
  "notna c = (c \<noteq> NaN)"

definition astype_str :: "pandas_env \<Rightarrow> cell \<Rightarrow> string" where
  "astype_str E c = (case c of NaN \<Rightarrow> ''nan'' | Text s \<Rightarrow> s | IntV i \<Rightarrow> show_int i
     | FloatV r \<Rightarrow> float_str E r)"

definition text_of :: "cell \<Rightarrow> string" where
  "text_of c = (case c of Text s \<Rightarrow> s | _ \<Rightarrow> [])"

text \<open>\<open>pd.to_numeric(..., errors="coerce")\<close> on one cell.\<close>

definition to_numeric :: "pandas_env \<Rightarrow> cell \<Rightarrow> cell" where
  "to_numeric E c = (case c of
       Text s \<Rightarrow> (case to_num E s of None \<Rightarrow> NaN | Some r \<Rightarrow> FloatV r)
     | _ \<Rightarrow> c)"

definition fillna0 :: "cell \<Rightarrow> cell" where
  "fillna0 c = (if c = NaN then IntV 0 else c)"

definition trunc :: "rat \<Rightarrow> int" where
  "trunc r = (if r < 0 then - \<lfloor>- r\<rfloor> else \<lfloor>r\<rfloor>)"

text \<open>\<open>astype(int)\<close> on a cell of a numeric column: a float is cut towards zero, a missing
  value raises. (Text cannot reach it: every call follows \<open>to_numeric\<close>.)\<close>

definition astype_int :: "cell \<Rightarrow> py_error + cell" where
  "astype_int c = (case c of IntV i \<Rightarrow> Inr (IntV i) | FloatV r \<Rightarrow> Inr (IntV (trunc r))
     | NaN \<Rightarrow> Inl ValueError | Text s \<Rightarrow> Inl ValueError)"

definition num_val :: "cell \<Rightarrow> rat" where
  "num_val c = (case c of IntV i \<Rightarrow> of_int i | FloatV r \<Rightarrow> r | _ \<Rightarrow> 0)"

definition is_number :: "cell \<Rightarrow> bool" where
  "is_number c = (case c of IntV i \<Rightarrow> True | FloatV r \<Rightarrow> True | _ \<Rightarrow> False)"

definition is_text :: "cell \<Rightarrow> bool" where
  "is_text c = (case c of Text s \<Rightarrow> True | _ \<Rightarrow> False)"

fun traverse :: "('a \<Rightarrow> py_error + 'b) \<Rightarrow> 'a list \<Rightarrow> py_error + 'b list" where
  "traverse f [] = Inr []"
| "traverse f (x # xs) = (case f x of Inl e \<Rightarrow> Inl e | Inr y \<Rightarrow>
     (case traverse f xs of Inl e \<Rightarrow> Inl e | Inr ys \<Rightarrow> Inr (y # ys)))"

subsection \<open>Data frames\<close>

text \<open>A frame has its column labels (which a loaded sheet may give as text or numbers) and
  its rows, each with one cell per column.\<close>

record frame =
  columns :: "cell list"
  rows :: "cell list list"

definition rectangular :: "frame \<Rightarrow> bool" where
  "rectangular df = list_all (\<lambda>r. length r = length (columns df)) (rows df)"

text \<open>What \<open>pd.read_excel\<close> returns: it renames repeated labels apart.\<close>

definition wf_frame :: "frame \<Rightarrow> bool" where
  "wf_frame df = (distinct (columns df) \<and> rectangular df)"

text \<open>Every row has a cell for every column, and the cell under label \<open>l\<close> satisfies
  \<open>P l\<close>.\<close>

definition row_ok :: "(cell \<Rightarrow> cell \<Rightarrow> bool) \<Rightarrow> cell list \<Rightarrow> cell list \<Rightarrow> bool" where
  "row_ok P cols r = (length r = length cols \<and> list_all (\<lambda>(l, v). P l v) (zip cols r))"

definition all_rows :: "(cell \<Rightarrow> cell \<Rightarrow> bool) \<Rightarrow> frame \<Rightarrow> bool" where
  "all_rows P df = list_all (row_ok P (columns df)) (rows df)"

text \<open>A typed table: the key column exists and holds text, every other cell is a number.\<close>

definition typed :: "cell \<Rightarrow> frame \<Rightarrow> bool" where
  "typed k df = (k \<in> set (columns df) \<and>
     all_rows (\<lambda>l v. if l = k then is_text v else is_number v) df)"




definition cell_at :: "cell list \<Rightarrow> cell \<Rightarrow> cell list \<Rightarrow> cell" where
  "cell_at cols c r = (case map_of (zip cols r) c of Some v \<Rightarrow> v | None \<Rightarrow> NaN)"

definition filter_rows :: "(cell list \<Rightarrow> bool) \<Rightarrow> frame \<Rightarrow> frame" where
  "filter_rows P df = df\<lparr>rows := filter P (rows df)\<rparr>"

definition map_column :: "cell \<Rightarrow> (cell \<Rightarrow> cell) \<Rightarrow> frame \<Rightarrow> frame" where
  "map_column c f df =
     df\<lparr>rows := map (\<lambda>r. map2 (\<lambda>l v. if l = c then f v else v) (columns df) r) (rows df)\<rparr>"

text \<open>\<open>dropna(how="all")\<close>: rows whose cells are all missing go.\<close>

definition dropna_rows :: "frame \<Rightarrow> frame" where
  "dropna_rows df = filter_rows (list_ex notna) df"

definition select :: "bool list \<Rightarrow> 'a list \<Rightarrow> 'a list" where
  "select ms xs = map snd (filter fst (zip ms xs))"

definition col_cells :: "frame \<Rightarrow> nat \<Rightarrow> cell list" where
  "col_cells df j = map (\<lambda>r. if j < length r then r ! j else NaN) (rows df)"


text \<open>\<open>dropna(axis=1, how="all")\<close>: columns whose cells are all missing go (every column of a
  frame without rows).\<close>

definition dropna_cols :: "frame \<Rightarrow> frame" where
  "dropna_cols df =
     (let keep = map (\<lambda>j. list_ex notna (col_cells df j)) [0..<length (columns df)]
      in \<lparr>columns = select keep (columns df), rows = map (select keep) (rows df)\<rparr>)"

text \<open>\<open>df.columns.map(str)\<close>.\<close>

definition columns_map_str :: "pandas_env \<Rightarrow> frame \<Rightarrow> frame" where
  "columns_map_str E df = df\<lparr>columns := map (\<lambda>l. Text (astype_str E l)) (columns df)\<rparr>"

text \<open>\<open>df[cols] = df[cols].apply(pd.to_numeric, errors="coerce").fillna(0).astype(int)\<close>\<close>

definition coerce_int_cell :: "pandas_env \<Rightarrow> cell \<Rightarrow> py_error + cell" where
  "coerce_int_cell E c = astype_int (fillna0 (to_numeric E c))"

definition apply_cols :: "(cell \<Rightarrow> py_error + cell) \<Rightarrow> cell list \<Rightarrow> frame \<Rightarrow> py_error + frame" where
  "apply_cols f cs df =
     (case traverse (\<lambda>r. traverse (\<lambda>(l, v). if l \<in> set cs then f v else Inr v)
                                 (zip (columns df) r)) (rows df) of
        Inl e \<Rightarrow> Inl e
      | Inr rs \<Rightarrow> Inr (df\<lparr>rows := rs\<rparr>))"

definition coerce_int :: "pandas_env \<Rightarrow> cell list \<Rightarrow> frame \<Rightarrow> py_error + frame" where
  "coerce_int E numeric_cols df = apply_cols (coerce_int_cell E) numeric_cols df"

text \<open>The same without \<open>astype(int)\<close> (the sex file keeps decimals).\<close>

definition coerce_float :: "pandas_env \<Rightarrow> cell list \<Rightarrow> frame \<Rightarrow> frame" where
  "coerce_float E numeric_cols df =
     df\<lparr>rows := map (\<lambda>r. map2 (\<lambda>l v. if l \<in> set numeric_cols then fillna0 (to_numeric E v)
                                       else v) (columns df) r) (rows df)\<rparr>"

text \<open>\<open>drop_duplicates(subset=key)\<close>: a row goes when an earlier row has its key.\<close>

fun drop_dups :: "('a \<Rightarrow> 'k) \<Rightarrow> 'k list \<Rightarrow> 'a list \<Rightarrow> 'a list" where
  "drop_dups key seen [] = []"
| "drop_dups key seen (r # rs) =
     (if key r \<in> set seen then drop_dups key seen rs
      else r # drop_dups key (key r # seen) rs)"

definition drop_duplicates :: "cell \<Rightarrow> frame \<Rightarrow> frame" where
  "drop_duplicates c df = df\<lparr>rows := drop_dups (cell_at (columns df) c) [] (rows df)\<rparr>"

text \<open>\<open>df[name] = values\<close>: a new column goes last, an existing one is overwritten.\<close>

definition assign_column :: "cell \<Rightarrow> (cell list \<Rightarrow> cell) \<Rightarrow> frame \<Rightarrow> frame" where
  "assign_column c f df =
     (if c \<in> set (columns df)
      then df\<lparr>rows := map (\<lambda>r. map2 (\<lambda>l v. if l = c then f r else v) (columns df) r) (rows df)\<rparr>
      else \<lparr>columns = columns df @ [c], rows = map (\<lambda>r. r @ [f r]) (rows df)\<rparr>)"

text \<open>\<open>df[cols].sum(axis=1)\<close> for one row (a missing cell counts as zero).\<close>

definition row_sum :: "cell list \<Rightarrow> cell list \<Rightarrow> cell list \<Rightarrow> rat" where
  "row_sum cols numeric_cols r =
     sum_list (map (\<lambda>(l, v). if l \<in> set numeric_cols then num_val v else 0) (zip cols r))"

text \<open>The sum of integer columns is an integer.\<close>

definition sum_cell :: "rat \<Rightarrow> cell" where
  "sum_cell q = (if of_int \<lfloor>q\<rfloor> = q then IntV \<lfloor>q\<rfloor> else FloatV q)"

text \<open>The head shared by the files with a configured column list: rows without a key go
  (\<open>df[key]\<close> raises when no column has that label), the key is made stripped text.\<close>

definition key_rows :: "pandas_env \<Rightarrow> cell \<Rightarrow> frame \<Rightarrow> py_error + frame" where
  "key_rows E k df =
     (if k \<notin> set (columns df) then Inl KeyError
      else Inr (map_column k (\<lambda>v. Text (strip (astype_str E v)))
                  (filter_rows (\<lambda>r. notna (cell_at (columns df) k r)) df)))"

text \<open>\<open>if len(df.columns) >= len(expected_cols): df = df.iloc[:, :len(expected_cols)];
  df.columns = expected_cols\<close>\<close>

definition override_ge :: "cell list \<Rightarrow> frame \<Rightarrow> frame" where
  "override_ge expected_cols df =
     (if length (columns df) \<ge> length expected_cols
      then \<lparr>columns = expected_cols, rows = map (take (length expected_cols)) (rows df)\<rparr>
      else df)"


definition others :: "cell \<Rightarrow> frame \<Rightarrow> cell list" where
  "others k df = filter (\<lambda>l. l \<noteq> k) (columns df)"

text \<open>\<open>DataFrame.melt\<close>: one record (identifier cells, column label, cell) for every value
  column and row, column by column.\<close>

definition melt :: "cell list \<Rightarrow> cell list \<Rightarrow> frame \<Rightarrow> (cell list \<times> cell \<times> cell) list" where
  "melt id_vars value_vars df =
     concat (map (\<lambda>c. map (\<lambda>r. (map (\<lambda>i. cell_at (columns df) i r) id_vars, c,
                                    cell_at (columns df) c r)) (rows df)) value_vars)"

section \<open>The all-countries file (\<open>display_country_data\<close>)\<close>

definition COUNTRY :: cell where
  "COUNTRY = Text ''COUNTRY''"

definition country_denylist :: "string list" where
  "country_denylist = [''TOTAL'', ''OTHERS'', ''UNKNOWN'']"

text \<open>Lines 152 to 160: labels as text, empty rows and columns dropped, the first column
  named \<open>COUNTRY\<close>, rows without a key dropped, keys stripped, denylisted rows dropped.\<close>

definition country_pruned :: "pandas_env \<Rightarrow> frame \<Rightarrow> py_error + frame" where
  "country_pruned E df0 =
     (let df1 = dropna_cols (dropna_rows (columns_map_str E df0)) in
      if COUNTRY \<notin> set (columns df1) \<and> columns df1 = [] then Inl IndexError
      else
        let df2 = (if COUNTRY \<in> set (columns df1) then df1
                   else df1\<lparr>columns := COUNTRY # tl (columns df1)\<rparr>);
            df3 = filter_rows (\<lambda>r. notna (cell_at (columns df2) COUNTRY r)) df2;
            df4 = map_column COUNTRY (\<lambda>v. Text (strip (astype_str E v))) df3
        in Inr (filter_rows
                 (\<lambda>r. \<not> str_contains_ci country_denylist (text_of (cell_at (columns df4) COUNTRY r)))
                 df4))"

text \<open>Lines 162 to 165: every other column is made integer.\<close>

definition country_coerced :: "pandas_env \<Rightarrow> frame \<Rightarrow> py_error + frame" where
  "country_coerced E df0 =
     (case country_pruned E df0 of Inl e \<Rightarrow> Inl e
      | Inr df \<Rightarrow> coerce_int E (others COUNTRY df) df)"

text \<open>Lines 167 and 168: duplicates of a key dropped, the row total added.\<close>

definition display_country_data :: "pandas_env \<Rightarrow> frame \<Rightarrow> py_error + frame" where
  "display_country_data E df0 =
     (case country_coerced E df0 of Inl e \<Rightarrow> Inl e
      | Inr df \<Rightarrow>
          let numeric_cols = others COUNTRY df;
              df1 = drop_duplicates COUNTRY df
          in Inr (assign_column (Text ''Total_Emigrants'')
                    (\<lambda>r. sum_cell (row_sum (columns df1) numeric_cols r)) df1))"


section \<open>The age file (\<open>display_age_data\<close>)\<close>

text \<open>Lines 78 and 79: the cleaned table is the loaded one with its labels as text.\<close>

definition display_age_data :: "pandas_env \<Rightarrow> frame \<Rightarrow> frame" where
  "display_age_data E df0 = columns_map_str E df0"

text \<open>\<open>str.match(r"^\d{4}$")\<close>: four digits, then the end or one final line feed.\<close>

definition year_match :: "string \<Rightarrow> bool" where
  "year_match s = (list_all is_digit (take 4 s) \<and> length (take 4 s) = 4 \<and>
     (drop 4 s = [] \<or> drop 4 s = [CHR 0x0A]))"

record long_record =
  entity :: cell
  year :: int
  emigrants :: cell

text \<open>Lines 87 to 89: the table is melted on its first column, the records of year-named
  columns are kept and their year made an integer. \<open>melt\<close> refuses a table that has a column
  \<open>Emigrants\<close>; a first column named \<open>Year\<close> would give the melted table two such columns,
  and \<open>.str\<close> then fails.\<close>

definition age_reshape :: "pandas_env \<Rightarrow> frame \<Rightarrow> py_error + long_record list" where
  "age_reshape E df0 =
     (let df = display_age_data E df0 in
      if columns df = [] then Inl IndexError
      else if Text ''Emigrants'' \<in> set (columns df) then Inl ValueError
      else if hd (columns df) = Text ''Year'' then Inl AttributeError
      else Inr (map (\<lambda>(ids, c, v). \<lparr>entity = hd ids,
                                     year = int (nat_of_digits (take 4 (text_of c))),
                                     emigrants = v\<rparr>)
                 (filter (\<lambda>(ids, c, v). year_match (text_of c))
                    (melt [hd (columns df)] (others (hd (columns df)) df) df))))"

section \<open>The major-countries file (\<open>display_major_country_data\<close>)\<close>

definition YEAR :: cell where
  "YEAR = Text ''YEAR''"



definition exclude_keywords :: "string list" where
  "exclude_keywords = [''TOTAL'', ''INC'', ''UNNAMED'']"

text \<open>Lines 272 to 276: the columns that are summed for the chart. \<open>c.upper()\<close> needs a text
  label.\<close>

definition country_columns :: "frame \<Rightarrow> py_error + cell list" where
  "country_columns df =
     (case traverse (\<lambda>c. if c = YEAR then Inr (c, False)
                          else (case c of
                                  Text s \<Rightarrow> Inr (c, \<not> list_ex (\<lambda>ex. sublist ex (upper s)) exclude_keywords)
                                | _ \<Rightarrow> Inl AttributeError)) (columns df) of
        Inl e \<Rightarrow> Inl e
      | Inr marked \<Rightarrow> Inr (map fst (filter snd marked)))"

section \<open>The occupation file (\<open>display_occu_data\<close>)\<close>

definition MAJOR_OCCUPATION_GROUP :: cell where
  "MAJOR_OCCUPATION_GROUP = Text ''MAJOR_OCCUPATION_GROUP''"

definition TOTAL :: cell where
  "TOTAL = Text ''TOTAL''"

definition years :: "nat \<Rightarrow> nat \<Rightarrow> cell list" where
  "years a b = map (\<lambda>y. Text (show_nat y)) [a..<b]"

definition expected_occu :: "cell list" where
  "expected_occu = MAJOR_OCCUPATION_GROUP # years 1981 2021 @ [TOTAL]"

text \<open>Lines 346 to 366: the cleaned table.\<close>

definition display_occu_data :: "pandas_env \<Rightarrow> frame \<Rightarrow> py_error + frame" where
  "display_occu_data E df0 =
     (case key_rows E MAJOR_OCCUPATION_GROUP
             (override_ge expected_occu (dropna_rows (dropna_cols df0))) of
        Inl e \<Rightarrow> Inl e
      | Inr df \<Rightarrow> coerce_int E (others MAJOR_OCCUPATION_GROUP df) df)"

definition employed :: "string list" where
  "employed = [''Prof'l, Tech'l, & Related Workers'',
     ''Managerial, Executive, and Administrative Workers'',
     ''Clerical Workers'',
     ''Sales Workers'',
     ''Service Workers'',
     ''Agri, Animal Husbandry, Forestry Workers & Fishermen'',
     ''Production Process, Transport Equipment Operators, & Laborers'',
     ''Members of the Armed Forces'']"

definition unemployed :: "string list" where
  "unemployed = [''Housewives'', ''Retirees'', ''Students'', ''Minors (Below 7 years old)'',
     ''Out of School Youth'', ''Refugees'', ''No Occupation Reported'']"

definition CATEGORY :: cell where
  "CATEGORY = Text ''CATEGORY''"

text \<open>Line 404; Python's \<open>None\<close> is a missing cell.\<close>

definition category :: "string \<Rightarrow> cell" where
  "category x = (if x \<in> set employed then Text ''Employed''
                 else if x \<in> set unemployed then Text ''Unemployed'' else NaN)"

text \<open>Lines 403 to 408: the table with its \<open>CATEGORY\<close> column, and the rows kept for the
  comparison of the groups.\<close>

definition occu_tagged :: "pandas_env \<Rightarrow> frame \<Rightarrow> py_error + frame" where
  "occu_tagged E df0 =
     (case display_occu_data E df0 of Inl e \<Rightarrow> Inl e
      | Inr df \<Rightarrow> Inr (assign_column CATEGORY
                        (\<lambda>r. category (text_of (cell_at (columns df) MAJOR_OCCUPATION_GROUP r))) df))"

definition occu_filtered :: "pandas_env \<Rightarrow> frame \<Rightarrow> py_error + frame" where
  "occu_filtered E df0 =
     (case occu_tagged E df0 of Inl e \<Rightarrow> Inl e
      | Inr df \<Rightarrow> Inr (filter_rows
          (\<lambda>r. notna (cell_at (columns df) CATEGORY r) \<and>
               \<not> str_contains_ci [''TOTAL'']
                   (text_of (cell_at (columns df) MAJOR_OCCUPATION_GROUP r))) df))"

text \<open>Lines 411 to 419: every fifth year is melted; \<open>melt\<close> raises when one of them is not a
  column.\<close>

definition selected_years :: "cell list" where
  "selected_years = map (\<lambda>y. Text (show_nat y)) [1981, 1986, 1991, 1996, 2001, 2006, 2011, 2016]"

definition occu_melted :: "pandas_env \<Rightarrow> frame \<Rightarrow> py_error + (cell list \<times> cell \<times> cell) list" where
  "occu_melted E df0 =
     (case occu_filtered E df0 of Inl e \<Rightarrow> Inl e
      | Inr df \<Rightarrow> if \<not> set selected_years \<subseteq> set (columns df) then Inl KeyError
                  else Inr (melt [MAJOR_OCCUPATION_GROUP, CATEGORY] selected_years df))"

section \<open>The sex file (\<open>display_sex_data\<close>)\<close>

definition SEX_RATIO :: cell where
  "SEX_RATIO = Text ''SEX_RATIO''"

definition expected_sex :: "cell list" where
  "expected_sex = map Text [''YEAR'', ''MALE'', ''FEMALE'', ''TOTAL'', ''SEX_RATIO'']"

text \<open>\<open>str.extract(r"(\d+)")\<close>: the first run of digits of the text, wherever it starts.\<close>

definition extract_digits :: "string \<Rightarrow> string" where
  "extract_digits s = takeWhile is_digit (dropWhile (\<lambda>c. \<not> is_digit c) s)"

text \<open>Lines 497 to 503 on one cell: the digits as a float, over 100; missing when the text has
  no digit.\<close>

definition sex_ratio :: "pandas_env \<Rightarrow> cell \<Rightarrow> cell" where
  "sex_ratio E c =
     (let ds = extract_digits (astype_str E c)
      in if ds = [] then NaN else FloatV (of_nat (nat_of_digits ds) / 100))"

text \<open>Lines 481 to 508: the cleaned table (\<open>df_full\<close>).\<close>

definition display_sex_data :: "pandas_env \<Rightarrow> frame \<Rightarrow> py_error + frame" where
  "display_sex_data E df0 =
     (case key_rows E YEAR (override_ge expected_sex (dropna_rows (dropna_cols df0))) of
        Inl e \<Rightarrow> Inl e
      | Inr df \<Rightarrow>
          let df1 = (if SEX_RATIO \<in> set (columns df) then map_column SEX_RATIO (sex_ratio E) df
                     else assign_column SEX_RATIO (\<lambda>r. IntV 0) df)
          in Inr (coerce_float E (others YEAR df1) df1))"

text \<open>Line 511: the rows that are charted.\<close>

definition sex_viz :: "pandas_env \<Rightarrow> frame \<Rightarrow> py_error + frame" where
  "sex_viz E df0 =
     (case display_sex_data E df0 of Inl e \<Rightarrow> Inl e
      | Inr df \<Rightarrow> Inr (filter_rows
          (\<lambda>r. \<not> str_contains_ci [''TOTAL'', ''Average''] (text_of (cell_at (columns df) YEAR r))) df))"

section \<open>The civil-status file (\<open>display_civil_data\<close>)\<close>

definition expected_civil :: "cell list" where
  "expected_civil = map Text [''YEAR'', ''Single'', ''Married'', ''Widower'', ''Separated'',
     ''Divorced'', ''Not_Reported'', ''TOTAL'']"

text \<open>Lines 615 to 636: the cleaned table. (The charted rows \<open>df_viz\<close> are taken before the
  coercion and lose the total and average rows.)\<close>

definition display_civil_data :: "pandas_env \<Rightarrow> frame \<Rightarrow> py_error + frame" where
  "display_civil_data E df0 =
     (case key_rows E YEAR (override_ge expected_civil (dropna_rows (dropna_cols df0))) of
        Inl e \<Rightarrow> Inl e
      | Inr df \<Rightarrow> coerce_int E (others YEAR df) df)"

definition civil_viz :: "pandas_env \<Rightarrow> frame \<Rightarrow> py_error + frame" where
  "civil_viz E df0 =
     (case key_rows E YEAR (override_ge expected_civil (dropna_rows (dropna_cols df0))) of
        Inl e \<Rightarrow> Inl e
      | Inr df \<Rightarrow> Inr (filter_rows
          (\<lambda>r. \<not> str_contains_ci [''TOTAL'', ''Average''] (text_of (cell_at (columns df) YEAR r))) df))"

section \<open>The education file (\<open>display_educ_data\<close>)\<close>

definition EDUCATIONAL_ATTAINMENT :: cell where
  "EDUCATIONAL_ATTAINMENT = Text ''EDUCATIONAL_ATTAINMENT''"

definition expected_educ :: "cell list" where
  "expected_educ = EDUCATIONAL_ATTAINMENT # years 1988 2021 @ [TOTAL]"

text \<open>Lines 735 to 752: the cleaned table (\<open>df_viz\<close>) has no total row and no key shorter
  than two characters.\<close>

definition display_educ_data :: "pandas_env \<Rightarrow> frame \<Rightarrow> py_error + frame" where
  "display_educ_data E df0 =
     (case key_rows E EDUCATIONAL_ATTAINMENT
             (override_ge expected_educ (dropna_rows (dropna_cols df0))) of
        Inl e \<Rightarrow> Inl e
      | Inr df \<Rightarrow>
          let df_viz = filter_rows
                (\<lambda>r. \<not> str_contains_ci [''TOTAL'']
                        (text_of (cell_at (columns df) EDUCATIONAL_ATTAINMENT r))) df;
              df_viz = filter_rows
                (\<lambda>r. length (text_of (cell_at (columns df) EDUCATIONAL_ATTAINMENT r)) > 1) df_viz
          in coerce_int E (others EDUCATIONAL_ATTAINMENT df_viz) df_viz)"


section \<open>The place-of-origin workbook (\<open>display_place_data\<close>)\<close>












section \<open>A table for worked examples\<close>


section \<open>Properties of the operations\<close>

lemma traverse_map:
  "(\<And>x. x \<in> set xs \<Longrightarrow> f x = Inr (g x)) \<Longrightarrow> traverse f xs = Inr (map g xs)"
  by (induction xs) simp_all

lemma apply_cols_total:
  assumes "\<And>v. f v = Inr (g v)"
  shows "apply_cols f cs df =
    Inr (df\<lparr>rows := map (\<lambda>r. map2 (\<lambda>l v. if l \<in> set cs then g v else v) (columns df) r)
                         (rows df)\<rparr>)"
proof -
  have inner: "traverse (\<lambda>(l, v). if l \<in> set cs then f v else Inr v) ps
      = Inr (map (\<lambda>(l, v). if l \<in> set cs then g v else v) ps)" for ps
    by (rule traverse_map) (auto simp: assms)
  have "traverse (\<lambda>r. traverse (\<lambda>(l, v). if l \<in> set cs then f v else Inr v) (zip (columns df) r)) (rows df)
     = Inr (map (\<lambda>r. map2 (\<lambda>l v. if l \<in> set cs then g v else v) (columns df) r) (rows df))"
    by (rule traverse_map) (simp add: inner)
  then show ?thesis by (simp add: apply_cols_def)
qed

lemma zip_labelled: "zip cols (map2 g cols r) = map (\<lambda>(l, v). (l, g l v)) (zip cols r)"
  by (induction cols arbitrary: r) (auto simp: zip_Cons1 split: list.splits)

lemma map_of_map_labelled:
  "map_of (map (\<lambda>(l, v). (l, g l v)) ps) c = map_option (g c) (map_of ps c)"
  by (induction ps) auto

lemma cell_at_map2:
  "c \<in> set cols \<Longrightarrow> length r = length cols \<Longrightarrow> cell_at cols c (map2 g cols r) = g c (cell_at cols c r)"
proof -
  assume a: "c \<in> set cols" "length r = length cols"
  then have "c \<in> fst ` set (zip cols r)" by (metis map_fst_zip set_map)
  then obtain v where "map_of (zip cols r) c = Some v"
    by (metis domIff dom_map_of_conv_image_fst not_Some_eq)
  then show ?thesis by (simp add: cell_at_def zip_labelled map_of_map_labelled)
qed

lemma row_ok_map2:
  "row_ok P cols r \<Longrightarrow> (\<And>l v. P l v \<Longrightarrow> Q l (g l v)) \<Longrightarrow> row_ok Q cols (map2 g cols r)"
  by (auto simp: row_ok_def zip_labelled list_all_iff)

lemma row_ok_mono: "row_ok P cols r \<Longrightarrow> (\<And>l v. P l v \<Longrightarrow> Q l v) \<Longrightarrow> row_ok Q cols r"
  by (auto simp: row_ok_def list_all_iff)

lemma rectangular_all_rows: "rectangular df = all_rows (\<lambda>l v. True) df"
  by (simp add: rectangular_def all_rows_def row_ok_def list_all_iff)


lemma columns_filter_rows [simp]: "columns (filter_rows Q df) = columns df"
  by (simp add: filter_rows_def)

lemma rows_filter_rows [simp]: "rows (filter_rows Q df) = filter Q (rows df)"
  by (simp add: filter_rows_def)

lemma columns_map_column [simp]: "columns (map_column c f df) = columns df"
  by (simp add: map_column_def)

lemma all_rows_filter_rows: "all_rows P df \<Longrightarrow> all_rows P (filter_rows Q df)"
  by (simp add: all_rows_def list_all_iff)

lemma all_rows_mono: "all_rows P df \<Longrightarrow> (\<And>l v. P l v \<Longrightarrow> Q l v) \<Longrightarrow> all_rows Q df"
  by (auto simp: all_rows_def list_all_iff intro: row_ok_mono)

lemma all_rows_map_rows:
  "all_rows P df \<Longrightarrow> (\<And>l v. P l v \<Longrightarrow> Q l (g l v)) \<Longrightarrow>
   all_rows Q (df\<lparr>rows := map (\<lambda>r. map2 g (columns df) r) (rows df)\<rparr>)"
  by (auto simp: all_rows_def list_all_iff intro: row_ok_map2)

lemma all_rows_map_column:
  "all_rows P df \<Longrightarrow> (\<And>l v. P l v \<Longrightarrow> Q l (if l = c then f v else v)) \<Longrightarrow>
   all_rows Q (map_column c f df)"
  unfolding map_column_def by (rule all_rows_map_rows)

lemma length_select: "length ms = length xs \<Longrightarrow> length (select ms xs) = length (filter id ms)"
  by (induction ms xs rule: list_induct2) (auto simp: select_def)

lemma rectangular_dropna_cols: "rectangular df \<Longrightarrow> rectangular (dropna_cols df)"
  by (auto simp: rectangular_def dropna_cols_def Let_def list_all_iff length_select)

lemma rectangular_dropna_rows: "rectangular df \<Longrightarrow> rectangular (dropna_rows df)"
  by (simp add: rectangular_def dropna_rows_def list_all_iff)

lemma rectangular_columns_map_str: "rectangular df \<Longrightarrow> rectangular (columns_map_str E df)"
  by (simp add: rectangular_def columns_map_str_def)

lemma rectangular_override_ge: "rectangular df \<Longrightarrow> rectangular (override_ge ex df)"
  by (auto simp: rectangular_def override_ge_def list_all_iff)


lemma key_rows_Inr:
  assumes "key_rows E k df = Inr out" "rectangular df"
  shows "k \<in> set (columns out)" "columns out = columns df"
    "all_rows (\<lambda>l v. l = k \<longrightarrow> is_text v) out"
proof -
  from assms(1) have k: "k \<in> set (columns df)"
    and out: "out = map_column k (\<lambda>v. Text (strip (astype_str E v)))
                  (filter_rows (\<lambda>r. notna (cell_at (columns df) k r)) df)"
    by (auto simp: key_rows_def split: if_splits)
  show "columns out = columns df" by (simp add: out)
  with k show "k \<in> set (columns out)" by simp
  have "all_rows (\<lambda>l v. True) (filter_rows (\<lambda>r. notna (cell_at (columns df) k r)) df)"
    using assms(2) by (simp add: rectangular_all_rows all_rows_filter_rows)
  then show "all_rows (\<lambda>l v. l = k \<longrightarrow> is_text v) out"
    unfolding out by (rule all_rows_map_column) (simp add: is_text_def)
qed

lemma set_others [simp]: "l \<in> set (others k df) \<longleftrightarrow> l \<in> set (columns df) \<and> l \<noteq> k"
  by (auto simp: others_def)

lemma coerce_int_cell_eq: "coerce_int_cell E v = Inr (IntV (trunc (num_val (to_numeric E v))))"
  by (cases v) (auto simp: coerce_int_cell_def astype_int_def fillna0_def to_numeric_def
      num_val_def trunc_def split: option.splits)

lemma coerce_int_eq:
  "coerce_int E cs df = Inr (df\<lparr>rows := map (\<lambda>r. map2 (\<lambda>l v. if l \<in> set cs
      then IntV (trunc (num_val (to_numeric E v))) else v) (columns df) r) (rows df)\<rparr>)"
  unfolding coerce_int_def by (rule apply_cols_total) (rule coerce_int_cell_eq)

lemma all_rows_columns: "all_rows P df \<Longrightarrow> all_rows (\<lambda>l v. l \<in> set (columns df) \<and> P l v) df"
  by (auto simp: all_rows_def row_ok_def list_all_iff dest: set_zip_leftD)

lemma typed_coerce_int:
  assumes "coerce_int E (others k df) df = Inr out" "k \<in> set (columns df)"
    "all_rows (\<lambda>l v. l = k \<longrightarrow> is_text v) df"
  shows "typed k out"
proof -
  have out: "out = df\<lparr>rows := map (\<lambda>r. map2 (\<lambda>l v. if l \<in> set (others k df)
      then IntV (trunc (num_val (to_numeric E v))) else v) (columns df) r) (rows df)\<rparr>"
    using assms(1) by (simp add: coerce_int_eq)
  have "all_rows (\<lambda>l v. if l = k then is_text v else is_number v) out"
    unfolding out
    by (rule all_rows_map_rows [OF all_rows_columns [OF assms(3)]]) (auto simp: is_number_def)
  then show ?thesis using assms(2) by (simp add: typed_def out)
qed

lemma typed_cells:
  assumes "typed k df" "r \<in> set (rows df)"
  shows "length r = length (columns df)" "r \<noteq> []" "\<forall>v \<in> set r. v \<noteq> NaN"
    "is_text (cell_at (columns df) k r)"
proof -
  from assms have ok: "row_ok (\<lambda>l v. if l = k then is_text v else is_number v) (columns df) r"
    and k: "k \<in> set (columns df)"
    by (auto simp: typed_def all_rows_def list_all_iff)
  then show len: "length r = length (columns df)" by (simp add: row_ok_def)
  with k show "r \<noteq> []" by auto
  have cells: "\<forall>(l, v) \<in> set (zip (columns df) r). if l = k then is_text v else is_number v"
    using ok by (simp add: row_ok_def list_all_iff)
  have "set r = snd ` set (zip (columns df) r)"
    using len by (metis map_snd_zip set_map)
  then show "\<forall>v \<in> set r. v \<noteq> NaN"
    using cells by (auto simp: is_text_def is_number_def split: if_splits)
  from k len have "k \<in> fst ` set (zip (columns df) r)" by (metis map_fst_zip set_map)
  then obtain v where v: "map_of (zip (columns df) r) k = Some v"
    by (metis domIff dom_map_of_conv_image_fst not_Some_eq)
  then have "(k, v) \<in> set (zip (columns df) r)" by (rule map_of_SomeD)
  with cells have "is_text v" by auto
  with v show "is_text (cell_at (columns df) k r)" by (simp add: cell_at_def)
qed






lemma all_rows_assign_column:
  assumes "all_rows P df" "\<And>r. P n (f r)"
  shows "all_rows P (assign_column n f df)"
proof (cases "n \<in> set (columns df)")
  case True
  have "row_ok P (columns df) (map2 (\<lambda>l v. if l = n then f r else v) (columns df) r)"
    if "r \<in> set (rows df)" for r
    using assms that by (auto simp: all_rows_def list_all_iff intro!: row_ok_map2 [where P = P])
  with True show ?thesis by (simp add: assign_column_def all_rows_def list_all_iff)
next
  case False
  have "row_ok P (columns df @ [n]) (r @ [f r])" if "r \<in> set (rows df)" for r
    using assms that by (auto simp: all_rows_def list_all_iff row_ok_def)
  with False show ?thesis by (simp add: assign_column_def all_rows_def list_all_iff)
qed

lemma columns_assign_column: "set (columns df) \<subseteq> set (columns (assign_column n f df))"
  by (auto simp: assign_column_def)

lemma set_drop_dups: "set (drop_dups key seen xs) \<subseteq> set xs"
  by (induction xs arbitrary: seen) auto

lemma all_rows_drop_duplicates: "all_rows P df \<Longrightarrow> all_rows P (drop_duplicates c df)"
  using set_drop_dups [of "cell_at (columns df) c" "[]" "rows df"]
  by (auto simp: all_rows_def drop_duplicates_def list_all_iff)



lemma rectangular_head: "rectangular df0 \<Longrightarrow> rectangular (override_ge ex (dropna_rows (dropna_cols df0)))"
  by (intro rectangular_override_ge rectangular_dropna_rows rectangular_dropna_cols)

lemma typed_occu:
  assumes "display_occu_data E df0 = Inr out" "rectangular df0"
  shows "typed MAJOR_OCCUPATION_GROUP out"
proof -
  let ?pre = "override_ge expected_occu (dropna_rows (dropna_cols df0))"
  from assms(1) obtain df where k: "key_rows E MAJOR_OCCUPATION_GROUP ?pre = Inr df"
    and c: "coerce_int E (others MAJOR_OCCUPATION_GROUP df) df = Inr out"
    by (auto simp: display_occu_data_def split: sum.splits)
  from key_rows_Inr [OF k rectangular_head [OF assms(2)]] c show ?thesis
    by (auto intro: typed_coerce_int)
qed


lemma others_filter_rows [simp]: "others k (filter_rows Q df) = others k df"
  by (simp add: others_def)

lemma typed_educ:
  assumes "display_educ_data E df0 = Inr out" "rectangular df0"
  shows "typed EDUCATIONAL_ATTAINMENT out"
proof -
  let ?k = EDUCATIONAL_ATTAINMENT
  let ?pre = "override_ge expected_educ (dropna_rows (dropna_cols df0))"
  from assms(1) obtain df viz where k: "key_rows E ?k ?pre = Inr df"
    and viz: "viz = filter_rows (\<lambda>r. length (text_of (cell_at (columns df) ?k r)) > 1)
                (filter_rows (\<lambda>r. \<not> str_contains_ci [''TOTAL''] (text_of (cell_at (columns df) ?k r))) df)"
    and c: "coerce_int E (others ?k viz) viz = Inr out"
    by (auto simp: display_educ_data_def Let_def split: sum.splits)
  note kr = key_rows_Inr [OF k rectangular_head [OF assms(2)]]
  have "all_rows (\<lambda>l v. l = ?k \<longrightarrow> is_text v) viz" "?k \<in> set (columns viz)"
    using kr by (simp_all add: viz all_rows_filter_rows)
  with c show ?thesis by (auto intro: typed_coerce_int)
qed


lemma drop_dups_keys:
  "distinct (map key (drop_dups key seen xs)) \<and>
   set (map key (drop_dups key seen xs)) = set (map key xs) - set seen"
  by (induction xs arbitrary: seen) auto

lemma drop_dups_first:
  "r \<in> set (drop_dups key seen xs) \<Longrightarrow> find (\<lambda>x. key x = key r) xs = Some r"
proof (induction xs arbitrary: seen)
  case Nil
  then show ?case by simp
next
  case (Cons x xs)
  have notseen: "key r \<notin> set seen"
    using Cons.prems drop_dups_keys [of key seen "x # xs"] by (metis DiffD2 imageI set_map)
  show ?case
  proof (cases "key x \<in> set seen")
    case True
    with Cons notseen show ?thesis by auto
  next
    case False
    show ?thesis
    proof (cases "r = x")
      case True
      then show ?thesis by simp
    next
      case False
      with Cons.prems \<open>key x \<notin> set seen\<close> have r: "r \<in> set (drop_dups key (key x # seen) xs)"
        by simp
      then have "key r \<notin> set (key x # seen)"
        using drop_dups_keys [of key "key x # seen" xs] by (metis DiffD2 imageI set_map)
      with Cons.IH [OF r] show ?thesis by auto
    qed
  qed
qed

lemma cell_at_assigned:
  assumes "c \<noteq> n" "c \<in> set (columns df)" "length r = length (columns df)"
  shows "cell_at (columns (assign_column n f df)) c
           (if n \<in> set (columns df) then map2 (\<lambda>l v. if l = n then f r else v) (columns df) r
            else r @ [f r]) = cell_at (columns df) c r"
proof (cases "n \<in> set (columns df)")
  case True
  then show ?thesis using assms by (simp add: assign_column_def cell_at_map2)
next
  case False
  then show ?thesis using assms
    by (simp add: assign_column_def cell_at_def map_add_def split: option.splits)
qed

lemma rows_assign_column:
  "rows (assign_column n f df) =
     map (\<lambda>r. if n \<in> set (columns df) then map2 (\<lambda>l v. if l = n then f r else v) (columns df) r
               else r @ [f r]) (rows df)"
  by (simp add: assign_column_def)

lemma assign_column_row:
  assumes "r' \<in> set (rows (assign_column n f df))" "c \<noteq> n" "c \<in> set (columns df)"
    "\<forall>r \<in> set (rows df). length r = length (columns df)"
  shows "\<exists>r \<in> set (rows df). cell_at (columns (assign_column n f df)) c r' = cell_at (columns df) c r"
proof -
  from assms(1) obtain r where r: "r \<in> set (rows df)"
    and r': "r' = (if n \<in> set (columns df)
                   then map2 (\<lambda>l v. if l = n then f r else v) (columns df) r else r @ [f r])"
    unfolding rows_assign_column set_map by (rule imageE)
  from r assms(4) have len: "length r = length (columns df)" by simp
  have "cell_at (columns (assign_column n f df)) c r' = cell_at (columns df) c r"
    unfolding r' by (rule cell_at_assigned [OF assms(2,3) len])
  with r show ?thesis by (rule bexI [rotated])
qed

lemma all_rows_length: "all_rows P df \<Longrightarrow> r \<in> set (rows df) \<Longrightarrow> length r = length (columns df)"
  by (simp add: all_rows_def row_ok_def list_all_iff)

lemma country_pruned_Inr:
  assumes "country_pruned E df0 = Inr df" "rectangular df0"
  shows "COUNTRY \<in> set (columns df)" "all_rows (\<lambda>l v. l = COUNTRY \<longrightarrow> is_text v) df"
    "\<forall>r \<in> set (rows df). \<not> str_contains_ci country_denylist (text_of (cell_at (columns df) COUNTRY r))"
proof -
  define df1 where "df1 = dropna_cols (dropna_rows (columns_map_str E df0))"
  define df2 where "df2 = (if COUNTRY \<in> set (columns df1) then df1
                   else df1\<lparr>columns := COUNTRY # tl (columns df1)\<rparr>)"
  define df4 where "df4 = map_column COUNTRY (\<lambda>v. Text (strip (astype_str E v)))
      (filter_rows (\<lambda>r. notna (cell_at (columns df2) COUNTRY r)) df2)"
  from assms(1) have ne: "COUNTRY \<in> set (columns df1) \<or> columns df1 \<noteq> []"
    and df: "df = filter_rows
                 (\<lambda>r. \<not> str_contains_ci country_denylist (text_of (cell_at (columns df4) COUNTRY r))) df4"
    by (auto simp: country_pruned_def Let_def df1_def df2_def df4_def split: if_splits)
  have r1: "rectangular df1" unfolding df1_def
    by (intro rectangular_dropna_cols rectangular_dropna_rows rectangular_columns_map_str assms(2))
  have r2: "rectangular df2" and k2: "COUNTRY \<in> set (columns df2)"
    using r1 ne by (auto simp: df2_def rectangular_def)
  have c4: "columns df4 = columns df2" by (simp add: df4_def)
  have a4: "all_rows (\<lambda>l v. l = COUNTRY \<longrightarrow> is_text v) df4"
    unfolding df4_def
    by (rule all_rows_map_column [where P = "\<lambda>l v. True"])
       (use r2 in \<open>simp_all add: rectangular_all_rows all_rows_filter_rows is_text_def\<close>)
  show "COUNTRY \<in> set (columns df)" using k2 by (simp add: df c4)
  show "all_rows (\<lambda>l v. l = COUNTRY \<longrightarrow> is_text v) df"
    using a4 by (simp add: df all_rows_filter_rows)
  show "\<forall>r \<in> set (rows df). \<not> str_contains_ci country_denylist (text_of (cell_at (columns df) COUNTRY r))"
    by (simp add: df)
qed

lemma country_coerced_Inr:
  assumes "country_coerced E df0 = Inr pre" "rectangular df0"
  shows "typed COUNTRY pre"
    "\<forall>r \<in> set (rows pre). \<not> str_contains_ci country_denylist (text_of (cell_at (columns pre) COUNTRY r))"
proof -
  from assms(1) obtain df where p: "country_pruned E df0 = Inr df"
    and c: "coerce_int E (others COUNTRY df) df = Inr pre"
    by (auto simp: country_coerced_def split: sum.splits)
  note pr = country_pruned_Inr [OF p assms(2)]
  show "typed COUNTRY pre" using c pr(1,2) by (rule typed_coerce_int)
  have pre: "pre = df\<lparr>rows := map (\<lambda>r. map2 (\<lambda>l v. if l \<in> set (others COUNTRY df)
      then IntV (trunc (num_val (to_numeric E v))) else v) (columns df) r) (rows df)\<rparr>"
    using c by (simp add: coerce_int_eq)
  show "\<forall>r \<in> set (rows pre). \<not> str_contains_ci country_denylist (text_of (cell_at (columns pre) COUNTRY r))"
    using pr(1,3) all_rows_length [OF pr(2)] by (auto simp: pre cell_at_map2)
qed

lemma typed_drop_duplicates: "typed k df \<Longrightarrow> typed k (drop_duplicates c df)"
  unfolding typed_def
  by (intro conjI all_rows_drop_duplicates) (simp_all add: drop_duplicates_def)

lemma is_number_sum_cell: "is_number (sum_cell q)"
  by (simp add: sum_cell_def is_number_def)

lemma display_country_Inr:
  assumes "display_country_data E df0 = Inr out" "rectangular df0"
  shows "typed COUNTRY out"
    "\<forall>r \<in> set (rows out). \<not> str_contains_ci country_denylist (text_of (cell_at (columns out) COUNTRY r))"
proof -
  from assms(1) obtain pre where p: "country_coerced E df0 = Inr pre"
    and out: "out = assign_column (Text ''Total_Emigrants'')
        (\<lambda>r. sum_cell (row_sum (columns (drop_duplicates COUNTRY pre)) (others COUNTRY pre) r))
        (drop_duplicates COUNTRY pre)"
    by (auto simp: display_country_data_def Let_def split: sum.splits)
  note pr = country_coerced_Inr [OF p assms(2)]
  let ?dd = "drop_duplicates COUNTRY pre"
  have td: "typed COUNTRY ?dd" using pr(1) by (rule typed_drop_duplicates)
  have ne: "COUNTRY \<noteq> Text ''Total_Emigrants''" by (simp add: COUNTRY_def)
  show "typed COUNTRY out"
    unfolding out typed_def
  proof (intro conjI all_rows_assign_column)
    show "COUNTRY \<in> set (columns (assign_column (Text ''Total_Emigrants'')
        (\<lambda>r. sum_cell (row_sum (columns ?dd) (others COUNTRY pre) r)) ?dd))"
      using td columns_assign_column [of ?dd] by (auto simp: typed_def)
    show "all_rows (\<lambda>l v. if l = COUNTRY then is_text v else is_number v) ?dd"
      using td by (simp only: typed_def)
    show "if Text ''Total_Emigrants'' = COUNTRY
          then is_text (sum_cell (row_sum (columns ?dd) (others COUNTRY pre) r))
          else is_number (sum_cell (row_sum (columns ?dd) (others COUNTRY pre) r))" for r
      using ne by (simp add: is_number_sum_cell)
  qed
  have sub: "set (rows ?dd) \<subseteq> set (rows pre)" and cd: "columns ?dd = columns pre"
    using set_drop_dups [of "cell_at (columns pre) COUNTRY" "[]" "rows pre"]
    by (auto simp: drop_duplicates_def)
  show "\<forall>r \<in> set (rows out). \<not> str_contains_ci country_denylist (text_of (cell_at (columns out) COUNTRY r))"
  proof
    fix r' assume "r' \<in> set (rows out)"
    moreover have "COUNTRY \<in> set (columns ?dd)" using td by (simp add: typed_def)
    moreover have "\<forall>r \<in> set (rows ?dd). length r = length (columns ?dd)"
      using typed_cells(1) [OF td] by blast
    ultimately have "\<exists>r \<in> set (rows ?dd).
        cell_at (columns out) COUNTRY r' = cell_at (columns ?dd) COUNTRY r"
      unfolding out by (intro assign_column_row [OF _ ne])
    then obtain r where r: "r \<in> set (rows ?dd)"
      and eq: "cell_at (columns out) COUNTRY r' = cell_at (columns ?dd) COUNTRY r"
      by (rule bexE)
    have "r \<in> set (rows pre)" using r sub by auto
    with eq show "\<not> str_contains_ci country_denylist (text_of (cell_at (columns out) COUNTRY r'))"
      using pr(2) cd by simp
  qed
qed

lemma coerce_int_keeps_key:
  assumes "coerce_int E (others k df) df = Inr out" "k \<in> set (columns df)" "all_rows P df"
  shows "columns out = columns df"
    "map (cell_at (columns out) k) (rows out) = map (cell_at (columns df) k) (rows df)"
proof -
  have out: "out = df\<lparr>rows := map (\<lambda>r. map2 (\<lambda>l v. if l \<in> set (others k df)
      then IntV (trunc (num_val (to_numeric E v))) else v) (columns df) r) (rows df)\<rparr>"
    using assms(1) by (simp add: coerce_int_eq)
  show "columns out = columns df" by (simp add: out)
  show "map (cell_at (columns out) k) (rows out) = map (cell_at (columns df) k) (rows df)"
    using assms(2) all_rows_length [OF assms(3)] by (simp add: out cell_at_map2)
qed

lemma educ_no_total:
  assumes "display_educ_data E df0 = Inr out" "rectangular df0"
  shows "\<forall>r \<in> set (rows out). \<not> str_contains_ci [''TOTAL'']
           (text_of (cell_at (columns out) EDUCATIONAL_ATTAINMENT r))"
proof -
  let ?k = EDUCATIONAL_ATTAINMENT
  let ?pre = "override_ge expected_educ (dropna_rows (dropna_cols df0))"
  from assms(1) obtain df viz where k: "key_rows E ?k ?pre = Inr df"
    and viz: "viz = filter_rows (\<lambda>r. length (text_of (cell_at (columns df) ?k r)) > 1)
                (filter_rows (\<lambda>r. \<not> str_contains_ci [''TOTAL''] (text_of (cell_at (columns df) ?k r))) df)"
    and c: "coerce_int E (others ?k viz) viz = Inr out"
    by (auto simp: display_educ_data_def Let_def split: sum.splits)
  note kr = key_rows_Inr [OF k rectangular_head [OF assms(2)]]
  have a: "all_rows (\<lambda>l v. l = ?k \<longrightarrow> is_text v) viz" and kv: "?k \<in> set (columns viz)"
    using kr by (simp_all add: viz all_rows_filter_rows)
  note ck = coerce_int_keeps_key [OF c kv a]
  have "\<forall>x \<in> set (map (cell_at (columns viz) ?k) (rows viz)). \<not> str_contains_ci [''TOTAL''] (text_of x)"
    by (simp add: viz)
  then have "\<forall>x \<in> set (map (cell_at (columns out) ?k) (rows out)). \<not> str_contains_ci [''TOTAL''] (text_of x)"
    by (simp only: ck(2))
  then show ?thesis by simp
qed



lemma trunc_of_int [simp]: "trunc (of_int i) = i"
  by (simp add: trunc_def)










lemma length_expected_occu: "length expected_occu = 42"
  by (simp add: expected_occu_def years_def)


lemma override_ge_short: "length (columns df) < length ex \<Longrightarrow> override_ge ex df = df"
  by (simp add: override_ge_def)

















lemma cell_at_assigned_self:
  assumes "length r = length (columns df)"
  shows "cell_at (columns (assign_column n f df)) n
           (if n \<in> set (columns df) then map2 (\<lambda>l v. if l = n then f r else v) (columns df) r
            else r @ [f r]) = f r"
proof (cases "n \<in> set (columns df)")
  case True
  then show ?thesis using assms by (simp add: assign_column_def cell_at_map2)
next
  case False
  then have m: "map_of (zip (columns df) r) n = None"
    using assms by (simp add: map_of_zip_is_None)
  show ?thesis using False
    by (simp add: assign_column_def cell_at_def map_add_def m assms)
qed

section \<open>The claims\<close>

lemma extract_digits_none: "\<not> list_ex is_digit s \<Longrightarrow> extract_digits s = []"
  by (induction s) (auto simp: extract_digits_def)

text \<open>
  C3 (as amended). The sex-ratio text \<open>71M/100F\<close> becomes the ratio 71/100. A text without
  any digit becomes 0. In general the ratio is the first run of digits of the text, wherever
  that run starts, over 100.
\<close>

theorem sex_ratio_first_digits:
  "fillna0 (to_numeric E (sex_ratio E (Text ''71M/100F''))) = FloatV (71 / 100) \<and>
   (\<not> list_ex is_digit s \<longrightarrow> fillna0 (to_numeric E (sex_ratio E (Text s))) = IntV 0) \<and>
   (list_ex is_digit s \<longrightarrow> fillna0 (to_numeric E (sex_ratio E (Text s)))
        = FloatV (of_nat (nat_of_digits (extract_digits s)) / 100))"
proof (intro conjI impI)
  show "fillna0 (to_numeric E (sex_ratio E (Text ''71M/100F''))) = FloatV (71 / 100)"
    by (simp add: sex_ratio_def astype_str_def extract_digits_def is_digit_def nat_of_digits_def
        digit_val_def to_numeric_def fillna0_def)
next
  assume "\<not> list_ex is_digit s"
  then show "fillna0 (to_numeric E (sex_ratio E (Text s))) = IntV 0"
    by (simp add: sex_ratio_def astype_str_def extract_digits_none to_numeric_def fillna0_def)
next
  assume "list_ex is_digit s"
  then have "extract_digits s \<noteq> []"
    by (induction s) (auto simp: extract_digits_def)
  then show "fillna0 (to_numeric E (sex_ratio E (Text s)))
        = FloatV (of_nat (nat_of_digits (extract_digits s)) / 100)"
    by (simp add: sex_ratio_def astype_str_def to_numeric_def fillna0_def Let_def)
qed

theorem sex_ratio_first_digits_witness:
  "\<not> list_ex is_digit ''n/a'' \<and> fillna0 (to_numeric plain_env (sex_ratio plain_env (Text ''n/a''))) = IntV 0 \<and>
   list_ex is_digit ''105 males'' \<and>
   fillna0 (to_numeric plain_env (sex_ratio plain_env (Text ''105 males''))) = FloatV (105 / 100)"
  using sex_ratio_first_digits [of plain_env "''n/a''"]
    sex_ratio_first_digits [of plain_env "''105 males''"]
  by (simp add: is_digit_def extract_digits_def nat_of_digits_def digit_val_def)

text \<open>The text \<open>M71/100F\<close> does not start with a digit, and its ratio is 71/100.\<close>

theorem sex_ratio_no_leading_digit_counterexample:
  "takeWhile is_digit ''M71/100F'' = [] \<and>
   fillna0 (to_numeric plain_env (sex_ratio plain_env (Text ''M71/100F''))) = FloatV (71 / 100) \<and>
   num_val (FloatV (71 / 100)) \<noteq> 0"
  by (simp add: sex_ratio_def astype_str_def extract_digits_def is_digit_def nat_of_digits_def
      digit_val_def to_numeric_def fillna0_def num_val_def)






text \<open>
  C1 (as amended). In the cleaned table of the all-countries file no key contains, in any
  letter case, \<open>TOTAL\<close>, \<open>OTHERS\<close> or \<open>UNKNOWN\<close>; in the cleaned table of the education file
  no key contains \<open>TOTAL\<close>. So a row keyed \<open>GRAND TOTAL\<close> or \<open>Total Employment Services\<close>
  is removed from both. The keys of both tables are texts.
\<close>

theorem denylisted_keys_removed:
  "(rectangular df0 \<and> display_country_data E df0 = Inr out \<longrightarrow>
      (\<forall>r \<in> set (rows out). is_text (cell_at (columns out) COUNTRY r) \<and>
         \<not> str_contains_ci [''TOTAL'', ''OTHERS'', ''UNKNOWN'']
              (text_of (cell_at (columns out) COUNTRY r)))) \<and>
   (rectangular df0 \<and> display_educ_data E df0 = Inr out \<longrightarrow>
      (\<forall>r \<in> set (rows out). is_text (cell_at (columns out) EDUCATIONAL_ATTAINMENT r) \<and>
         \<not> str_contains_ci [''TOTAL'']
              (text_of (cell_at (columns out) EDUCATIONAL_ATTAINMENT r))))"
proof (intro conjI impI ballI)
  fix r assume a: "rectangular df0 \<and> display_country_data E df0 = Inr out" and r: "r \<in> set (rows out)"
  then have d: "display_country_data E df0 = Inr out" and re: "rectangular df0" by simp_all
  show "is_text (cell_at (columns out) COUNTRY r)"
    using typed_cells(4) [OF display_country_Inr(1) [OF d re] r] .
  show "\<not> str_contains_ci [''TOTAL'', ''OTHERS'', ''UNKNOWN''] (text_of (cell_at (columns out) COUNTRY r))"
    using display_country_Inr(2) [OF d re] r by (simp add: country_denylist_def)
next
  fix r assume a: "rectangular df0 \<and> display_educ_data E df0 = Inr out" and r: "r \<in> set (rows out)"
  then have d: "display_educ_data E df0 = Inr out" and re: "rectangular df0" by simp_all
  show "is_text (cell_at (columns out) EDUCATIONAL_ATTAINMENT r)"
    using typed_cells(4) [OF typed_educ [OF d re] r] .
  show "\<not> str_contains_ci [''TOTAL''] (text_of (cell_at (columns out) EDUCATIONAL_ATTAINMENT r))"
    using educ_no_total [OF d re] r by simp
qed

theorem denylisted_keys_removed_witness:
  "rectangular \<lparr>columns = [Text ''Unnamed: 0'', IntV 1981],
       rows = [[Text ''JAPAN'', IntV 5], [Text ''GRAND TOTAL'', IntV 12],
               [Text ''Total Employment Services'', IntV 7], [Text ''Others'', IntV 1]]\<rparr> \<and>
   display_country_data plain_env \<lparr>columns = [Text ''Unnamed: 0'', IntV 1981],
       rows = [[Text ''JAPAN'', IntV 5], [Text ''GRAND TOTAL'', IntV 12],
               [Text ''Total Employment Services'', IntV 7], [Text ''Others'', IntV 1]]\<rparr>
     = Inr \<lparr>columns = [Text ''COUNTRY'', Text ''1981'', Text ''Total_Emigrants''],
            rows = [[Text ''JAPAN'', IntV 5, IntV 5]]\<rparr> \<and>
   list_all (\<lambda>r.
       is_text (cell_at [Text ''COUNTRY'', Text ''1981'', Text ''Total_Emigrants''] COUNTRY r) \<and>
       \<not> str_contains_ci [''TOTAL'', ''OTHERS'', ''UNKNOWN'']
           (text_of (cell_at [Text ''COUNTRY'', Text ''1981'', Text ''Total_Emigrants''] COUNTRY r)))
     [[Text ''JAPAN'', IntV 5, IntV 5]]"
proof -
  let ?df = "\<lparr>columns = [Text ''Unnamed: 0'', IntV 1981],
       rows = [[Text ''JAPAN'', IntV 5], [Text ''GRAND TOTAL'', IntV 12],
               [Text ''Total Employment Services'', IntV 7], [Text ''Others'', IntV 1]]\<rparr>"
  let ?out = "\<lparr>columns = [Text ''COUNTRY'', Text ''1981'', Text ''Total_Emigrants''],
            rows = [[Text ''JAPAN'', IntV 5, IntV 5]]\<rparr>"
  have r: "rectangular ?df" by (simp add: rectangular_def)
  have d: "display_country_data plain_env ?df = Inr ?out" by code_simp
  from denylisted_keys_removed [of ?df plain_env ?out] r d show ?thesis by simp
qed

text \<open>The cleaned table of the civil-status file keeps a row keyed \<open>GRAND TOTAL\<close> and a row
  keyed \<open>Total Employment Services\<close>: only the charted rows are filtered there.\<close>

theorem total_rows_kept_counterexample:
  "display_civil_data plain_env \<lparr>columns = [Text ''YEAR'', Text ''Single''],
       rows = [[IntV 1988, IntV 5], [Text ''GRAND TOTAL'', IntV 12],
               [Text ''Total Employment Services'', IntV 7]]\<rparr>
     = Inr \<lparr>columns = [Text ''YEAR'', Text ''Single''],
            rows = [[Text ''1988'', IntV 5], [Text ''GRAND TOTAL'', IntV 12],
                    [Text ''Total Employment Services'', IntV 7]]\<rparr> \<and>
   str_contains_ci [''TOTAL'', ''TOTALS'', ''AVERAGE'', ''OTHERS'', ''UNKNOWN'', ''NOT REPORTED'',
      ''NO RESPONSE''] ''GRAND TOTAL'' \<and>
   str_contains_ci [''TOTAL'', ''TOTALS'', ''AVERAGE'', ''OTHERS'', ''UNKNOWN'', ''NOT REPORTED'',
      ''NO RESPONSE''] ''Total Employment Services''"
  by code_simp


text \<open>
  C8 (as amended). In the all-countries file, among the rows that share a key the cleaned
  table keeps exactly one, the first: the keys of the cleaned table are distinct, they are the
  keys of the table before deduplication, and every cleaned row has, in every column but the
  added total, the cells of the first row with its key. The other files do not deduplicate.
\<close>

theorem first_occurrence_kept:
  assumes "rectangular df0" "country_coerced E df0 = Inr pre" "display_country_data E df0 = Inr out"
  shows "distinct (map (cell_at (columns out) COUNTRY) (rows out)) \<and>
    set (map (cell_at (columns out) COUNTRY) (rows out))
      = set (map (cell_at (columns pre) COUNTRY) (rows pre)) \<and>
    (\<forall>r' \<in> set (rows out). \<exists>r.
       find (\<lambda>x. cell_at (columns pre) COUNTRY x = cell_at (columns out) COUNTRY r') (rows pre) = Some r \<and>
       (\<forall>c \<in> set (columns pre). c \<noteq> Text ''Total_Emigrants'' \<longrightarrow>
           cell_at (columns out) c r' = cell_at (columns pre) c r))"
proof -
  let ?key = "cell_at (columns pre) COUNTRY"
  let ?dd = "drop_duplicates COUNTRY pre"
  let ?n = "Text ''Total_Emigrants''"
  let ?f = "\<lambda>r. sum_cell (row_sum (columns ?dd) (others COUNTRY pre) r)"
  let ?T = "\<lambda>r. if ?n \<in> set (columns ?dd) then map2 (\<lambda>l v. if l = ?n then ?f r else v) (columns ?dd) r
              else r @ [?f r]"
  have out: "out = assign_column ?n ?f ?dd"
    using assms(2,3) by (simp add: display_country_data_def Let_def)
  have tp: "typed COUNTRY pre" using country_coerced_Inr(1) [OF assms(2,1)] .
  have td: "typed COUNTRY ?dd" using tp by (rule typed_drop_duplicates)
  have cd: "columns ?dd = columns pre" and rd: "rows ?dd = drop_dups ?key [] (rows pre)"
    by (simp_all add: drop_duplicates_def)
  have ne: "COUNTRY \<noteq> ?n" by (simp add: COUNTRY_def)
  have k: "COUNTRY \<in> set (columns ?dd)" using td by (simp add: typed_def)
  have cell: "cell_at (columns out) c (?T r) = cell_at (columns pre) c r"
    if "r \<in> set (rows ?dd)" "c \<noteq> ?n" "c \<in> set (columns pre)" for r c
  proof -
    have "cell_at (columns (assign_column ?n ?f ?dd)) c (?T r) = cell_at (columns ?dd) c r"
      using that typed_cells(1) [OF td that(1)] by (intro cell_at_assigned) (simp_all add: cd)
    then show ?thesis by (simp add: out cd)
  qed
  have ro: "rows out = map ?T (rows ?dd)" unfolding out by (rule rows_assign_column)
  have keys: "map (cell_at (columns out) COUNTRY) (rows out) = map ?key (rows ?dd)"
    unfolding ro map_map
    by (rule map_cong [OF refl]) (use cell ne k cd in simp)
  note dk = drop_dups_keys [of ?key "[]" "rows pre"]
  have a: "distinct (map (cell_at (columns out) COUNTRY) (rows out))"
    using dk by (simp only: keys rd)
  have b: "set (map (cell_at (columns out) COUNTRY) (rows out)) = set (map ?key (rows pre))"
    using dk by (simp only: keys rd) simp
  have c: "\<exists>r. find (\<lambda>x. ?key x = cell_at (columns out) COUNTRY r') (rows pre) = Some r \<and>
       (\<forall>c \<in> set (columns pre). c \<noteq> ?n \<longrightarrow> cell_at (columns out) c r' = cell_at (columns pre) c r)"
    if "r' \<in> set (rows out)" for r'
  proof -
    from that obtain r where r: "r \<in> set (rows ?dd)" and r': "r' = ?T r"
      unfolding ro set_map by (rule imageE)
    have "find (\<lambda>x. ?key x = ?key r) (rows pre) = Some r"
      using r unfolding rd by (rule drop_dups_first)
    moreover have "cell_at (columns out) COUNTRY r' = ?key r"
      unfolding r' using r ne k cd by (intro cell) simp_all
    moreover have "\<forall>c \<in> set (columns pre). c \<noteq> ?n \<longrightarrow> cell_at (columns out) c r' = cell_at (columns pre) c r"
    proof (intro ballI impI)
      fix c assume "c \<in> set (columns pre)" "c \<noteq> ?n"
      with r show "cell_at (columns out) c r' = cell_at (columns pre) c r"
        unfolding r' by (intro cell)
    qed
    ultimately show ?thesis by (intro exI [of _ r]) simp
  qed
  from a b c show ?thesis by blast
qed

theorem first_occurrence_kept_witness:
  "rectangular \<lparr>columns = [Text ''COUNTRY'', IntV 1981],
       rows = [[Text ''JAPAN'', IntV 5], [Text ''ITALY'', IntV 2], [Text '' JAPAN'', IntV 40]]\<rparr> \<and>
   country_coerced plain_env \<lparr>columns = [Text ''COUNTRY'', IntV 1981],
       rows = [[Text ''JAPAN'', IntV 5], [Text ''ITALY'', IntV 2], [Text '' JAPAN'', IntV 40]]\<rparr>
     = Inr \<lparr>columns = [Text ''COUNTRY'', Text ''1981''],
       rows = [[Text ''JAPAN'', IntV 5], [Text ''ITALY'', IntV 2], [Text ''JAPAN'', IntV 40]]\<rparr> \<and>
   display_country_data plain_env \<lparr>columns = [Text ''COUNTRY'', IntV 1981],
       rows = [[Text ''JAPAN'', IntV 5], [Text ''ITALY'', IntV 2], [Text '' JAPAN'', IntV 40]]\<rparr>
     = Inr \<lparr>columns = [Text ''COUNTRY'', Text ''1981'', Text ''Total_Emigrants''],
       rows = [[Text ''JAPAN'', IntV 5, IntV 5], [Text ''ITALY'', IntV 2, IntV 2]]\<rparr> \<and>
   distinct (map (cell_at [Text ''COUNTRY'', Text ''1981'', Text ''Total_Emigrants''] COUNTRY)
       [[Text ''JAPAN'', IntV 5, IntV 5], [Text ''ITALY'', IntV 2, IntV 2]])"
proof -
  let ?df = "\<lparr>columns = [Text ''COUNTRY'', IntV 1981],
       rows = [[Text ''JAPAN'', IntV 5], [Text ''ITALY'', IntV 2], [Text '' JAPAN'', IntV 40]]\<rparr>"
  let ?pre = "\<lparr>columns = [Text ''COUNTRY'', Text ''1981''],
       rows = [[Text ''JAPAN'', IntV 5], [Text ''ITALY'', IntV 2], [Text ''JAPAN'', IntV 40]]\<rparr>"
  let ?out = "\<lparr>columns = [Text ''COUNTRY'', Text ''1981'', Text ''Total_Emigrants''],
       rows = [[Text ''JAPAN'', IntV 5, IntV 5], [Text ''ITALY'', IntV 2, IntV 2]]\<rparr>"
  have r: "rectangular ?df" by (simp add: rectangular_def)
  have p: "country_coerced plain_env ?df = Inr ?pre" by code_simp
  have d: "display_country_data plain_env ?df = Inr ?out" by code_simp
  from first_occurrence_kept [OF r p d] r p d show ?thesis by simp
qed

text \<open>The cleaned table of the civil-status file keeps both rows of a repeated year.\<close>

theorem duplicates_kept_counterexample:
  "display_civil_data plain_env \<lparr>columns = [Text ''YEAR'', Text ''Single''],
       rows = [[IntV 1988, IntV 5], [IntV 1988, IntV 7]]\<rparr>
     = Inr \<lparr>columns = [Text ''YEAR'', Text ''Single''],
            rows = [[Text ''1988'', IntV 5], [Text ''1988'', IntV 7]]\<rparr>"
  by code_simp



















text \<open>
  C7. An occupation label is tagged \<open>Employed\<close> exactly when it is a member of the employed
  list, and left untagged exactly when it is a member of neither list: membership is equality
  with a list entry, not containment. Tagging keeps every row of the cleaned table, with its
  key; the rows kept for the comparison of the groups are the tagged rows whose tag is not
  missing and whose key does not contain \<open>TOTAL\<close>, so the key of each of them is in one of the
  two lists.
\<close>

theorem occupation_groups:
  "(category x = Text ''Employed'' \<longleftrightarrow> x \<in> set employed) \<and>
   (category x = NaN \<longleftrightarrow> x \<notin> set employed \<and> x \<notin> set unemployed) \<and>
   (rectangular df0 \<and> display_occu_data E df0 = Inr clean \<and> occu_tagged E df0 = Inr tagged \<and>
    occu_filtered E df0 = Inr kept \<longrightarrow>
      map (cell_at (columns tagged) MAJOR_OCCUPATION_GROUP) (rows tagged)
        = map (cell_at (columns clean) MAJOR_OCCUPATION_GROUP) (rows clean) \<and>
      map (cell_at (columns tagged) CATEGORY) (rows tagged)
        = map (\<lambda>r. category (text_of (cell_at (columns clean) MAJOR_OCCUPATION_GROUP r))) (rows clean) \<and>
      columns kept = columns tagged \<and>
      rows kept = filter (\<lambda>r. cell_at (columns tagged) CATEGORY r \<noteq> NaN \<and>
                         \<not> str_contains_ci [''TOTAL'']
                             (text_of (cell_at (columns tagged) MAJOR_OCCUPATION_GROUP r))) (rows tagged) \<and>
      (\<forall>r \<in> set (rows kept).
          text_of (cell_at (columns kept) MAJOR_OCCUPATION_GROUP r) \<in> set employed \<union> set unemployed))"
proof (intro conjI impI)
  show "category x = Text ''Employed'' \<longleftrightarrow> x \<in> set employed"
    by (simp add: category_def)
  show c0: "category x = NaN \<longleftrightarrow> x \<notin> set employed \<and> x \<notin> set unemployed"
    by (simp add: category_def)
next
  assume a: "rectangular df0 \<and> display_occu_data E df0 = Inr clean \<and> occu_tagged E df0 = Inr tagged \<and>
    occu_filtered E df0 = Inr kept"
  let ?k = MAJOR_OCCUPATION_GROUP
  let ?f = "\<lambda>r. category (text_of (cell_at (columns clean) ?k r))"
  let ?T = "\<lambda>r. if CATEGORY \<in> set (columns clean)
                 then map2 (\<lambda>l v. if l = CATEGORY then ?f r else v) (columns clean) r else r @ [?f r]"
  let ?P = "\<lambda>r. cell_at (columns tagged) CATEGORY r \<noteq> NaN \<and>
                 \<not> str_contains_ci [''TOTAL''] (text_of (cell_at (columns tagged) ?k r))"
  from a have tagged: "tagged = assign_column CATEGORY ?f clean"
    by (auto simp: occu_tagged_def)
  from a have kept: "kept = filter_rows ?P tagged"
    by (auto simp: occu_filtered_def notna_def)
  from a have ty: "typed ?k clean" by (auto intro: typed_occu)
  then have kin: "?k \<in> set (columns clean)" by (simp add: typed_def)
  have ne: "?k \<noteq> CATEGORY" by (simp add: MAJOR_OCCUPATION_GROUP_def CATEGORY_def)
  have rt: "rows tagged = map ?T (rows clean)"
    unfolding tagged by (rule rows_assign_column)
  have key: "cell_at (columns tagged) ?k (?T r) = cell_at (columns clean) ?k r"
    if "r \<in> set (rows clean)" for r
    unfolding tagged using typed_cells(1) [OF ty that] by (intro cell_at_assigned [OF ne kin])
  have cat: "cell_at (columns tagged) CATEGORY (?T r) = ?f r" if "r \<in> set (rows clean)" for r
    unfolding tagged using typed_cells(1) [OF ty that] by (intro cell_at_assigned_self)
  show k1: "map (cell_at (columns tagged) ?k) (rows tagged) = map (cell_at (columns clean) ?k) (rows clean)"
    unfolding rt map_map by (rule map_cong [OF refl]) (simp only: comp_def key)
  show k2: "map (cell_at (columns tagged) CATEGORY) (rows tagged) = map ?f (rows clean)"
    unfolding rt map_map by (rule map_cong [OF refl]) (simp only: comp_def cat)
  show "columns kept = columns tagged" by (simp add: kept)
  show "rows kept = filter ?P (rows tagged)" by (simp add: kept)
  show "\<forall>r \<in> set (rows kept). text_of (cell_at (columns kept) ?k r) \<in> set employed \<union> set unemployed"
  proof
    fix r' assume "r' \<in> set (rows kept)"
    then have r't: "r' \<in> set (rows tagged)" and nn: "cell_at (columns tagged) CATEGORY r' \<noteq> NaN"
      by (simp_all add: kept)
    from r't obtain r where r: "r \<in> set (rows clean)" and r': "r' = ?T r"
      unfolding rt set_map by (rule imageE)
    have "cell_at (columns tagged) CATEGORY r' = ?f r"
      unfolding r' by (rule cat [OF r])
    with nn have "?f r \<noteq> NaN" by simp
    then have "text_of (cell_at (columns clean) ?k r) \<in> set employed \<union> set unemployed"
      by (auto simp: category_def split: if_splits)
    then show "text_of (cell_at (columns kept) ?k r') \<in> set employed \<union> set unemployed"
      unfolding r' by (simp only: kept columns_filter_rows key [OF r])
  qed
qed


theorem occupation_groups_witness:
  "rectangular \<lparr>columns = [Text ''MAJOR_OCCUPATION_GROUP'', Text ''1981''],
        rows = [[Text ''Students '', IntV 5], [Text ''Students Abroad'', IntV 6],
                [Text ''Clerical Workers'', Text ''7''], [Text ''TOTAL'', IntV 18]]\<rparr> \<and>
   display_occu_data plain_env \<lparr>columns = [Text ''MAJOR_OCCUPATION_GROUP'', Text ''1981''],
        rows = [[Text ''Students '', IntV 5], [Text ''Students Abroad'', IntV 6],
                [Text ''Clerical Workers'', Text ''7''], [Text ''TOTAL'', IntV 18]]\<rparr>
     = Inr \<lparr>columns = [Text ''MAJOR_OCCUPATION_GROUP'', Text ''1981''],
        rows = [[Text ''Students'', IntV 5], [Text ''Students Abroad'', IntV 6],
                [Text ''Clerical Workers'', IntV 7], [Text ''TOTAL'', IntV 18]]\<rparr> \<and>
   occu_tagged plain_env \<lparr>columns = [Text ''MAJOR_OCCUPATION_GROUP'', Text ''1981''],
        rows = [[Text ''Students '', IntV 5], [Text ''Students Abroad'', IntV 6],
                [Text ''Clerical Workers'', Text ''7''], [Text ''TOTAL'', IntV 18]]\<rparr>
     = Inr \<lparr>columns = [Text ''MAJOR_OCCUPATION_GROUP'', Text ''1981'', Text ''CATEGORY''],
        rows = [[Text ''Students'', IntV 5, Text ''Unemployed''],
                [Text ''Students Abroad'', IntV 6, NaN],
                [Text ''Clerical Workers'', IntV 7, Text ''Employed''],
                [Text ''TOTAL'', IntV 18, NaN]]\<rparr> \<and>
   occu_filtered plain_env \<lparr>columns = [Text ''MAJOR_OCCUPATION_GROUP'', Text ''1981''],
        rows = [[Text ''Students '', IntV 5], [Text ''Students Abroad'', IntV 6],
                [Text ''Clerical Workers'', Text ''7''], [Text ''TOTAL'', IntV 18]]\<rparr>
     = Inr \<lparr>columns = [Text ''MAJOR_OCCUPATION_GROUP'', Text ''1981'', Text ''CATEGORY''],
        rows = [[Text ''Students'', IntV 5, Text ''Unemployed''],
                [Text ''Clerical Workers'', IntV 7, Text ''Employed'']]\<rparr> \<and>
   category ''Students Abroad'' = NaN \<and>
   category ''Clerical Workers'' = Text ''Employed'' \<and>
   list_all (\<lambda>r. text_of (cell_at [Text ''MAJOR_OCCUPATION_GROUP'', Text ''1981'', Text ''CATEGORY'']
                               MAJOR_OCCUPATION_GROUP r) \<in> set employed \<union> set unemployed)
     [[Text ''Students'', IntV 5, Text ''Unemployed''],
      [Text ''Clerical Workers'', IntV 7, Text ''Employed'']]"
proof -
  let ?occ = "\<lparr>columns = [Text ''MAJOR_OCCUPATION_GROUP'', Text ''1981''],
        rows = [[Text ''Students '', IntV 5], [Text ''Students Abroad'', IntV 6],
                [Text ''Clerical Workers'', Text ''7''], [Text ''TOTAL'', IntV 18]]\<rparr>"
  let ?clean = "\<lparr>columns = [Text ''MAJOR_OCCUPATION_GROUP'', Text ''1981''],
        rows = [[Text ''Students'', IntV 5], [Text ''Students Abroad'', IntV 6],
                [Text ''Clerical Workers'', IntV 7], [Text ''TOTAL'', IntV 18]]\<rparr>"
  let ?tagged = "\<lparr>columns = [Text ''MAJOR_OCCUPATION_GROUP'', Text ''1981'', Text ''CATEGORY''],
        rows = [[Text ''Students'', IntV 5, Text ''Unemployed''],
                [Text ''Students Abroad'', IntV 6, NaN],
                [Text ''Clerical Workers'', IntV 7, Text ''Employed''],
                [Text ''TOTAL'', IntV 18, NaN]]\<rparr>"
  let ?kept = "\<lparr>columns = [Text ''MAJOR_OCCUPATION_GROUP'', Text ''1981'', Text ''CATEGORY''],
        rows = [[Text ''Students'', IntV 5, Text ''Unemployed''],
                [Text ''Clerical Workers'', IntV 7, Text ''Employed'']]\<rparr>"
  have r: "rectangular ?occ" by (simp add: rectangular_def)
  have "length (columns (dropna_rows (dropna_cols ?occ))) = 2" by code_simp
  then have ov: "override_ge expected_occu (dropna_rows (dropna_cols ?occ))
      = dropna_rows (dropna_cols ?occ)"
    by (simp add: override_ge_short length_expected_occu)
  have e1: "display_occu_data plain_env ?occ = Inr ?clean"
    apply (simp only: display_occu_data_def ov)
    apply code_simp
    done
  have e2: "occu_tagged plain_env ?occ = Inr ?tagged"
    apply (simp only: occu_tagged_def e1)
    apply code_simp
    done
  have e3: "occu_filtered plain_env ?occ = Inr ?kept"
    apply (simp only: occu_filtered_def e2)
    apply code_simp
    done
  have c1: "category ''Students Abroad'' = NaN"
    using occupation_groups [of "''Students Abroad''" ?occ plain_env ?clean ?tagged ?kept]
    by (simp add: employed_def unemployed_def)
  have c2: "category ''Clerical Workers'' = Text ''Employed''"
    using occupation_groups [of "''Clerical Workers''" ?occ plain_env ?clean ?tagged ?kept]
    by (simp add: employed_def)
  have c3: "\<forall>r \<in> set (rows ?kept).
      text_of (cell_at (columns ?kept) MAJOR_OCCUPATION_GROUP r) \<in> set employed \<union> set unemployed"
    using occupation_groups [of "''Clerical Workers''" ?occ plain_env ?clean ?tagged ?kept] r e1 e2 e3
    by blast
  from r e1 e2 e3 c1 c2 c3 show ?thesis by simp
qed

end
